theory Spec2Isabelle
  imports
    Complex_Main
    "HOL-Library.Char_ord"
    "HOL-Library.List_Lexorder"
    "HOL-Library.Product_Lexorder"
begin

section \<open>Python values: errors, strings, paths\<close>

text \<open>
  The notebook \<^verbatim>\<open>create_stooq_data.ipynb\<close> is straight-line Python over pandas,
  pathlib and zipfile. Exceptions are values of the type \<open>error\<close>; a call that may raise
  returns \<open>error + 'a\<close> with \<open>Inl\<close> for the exception.
\<close>

datatype error =
    FileNotFoundError
  | FileExistsError
  | IsADirectoryError
  | NotADirectoryError
  | BadZipFile
  | EmptyDataError
  | ParserError
  | IndexError
  | KeyError
  | ValueError
  | UnicodeDecodeError
  | UnsortedIndexError

text \<open>\<^verbatim>\<open>str.split(sep)\<close> for a one-character separator: never an empty list.\<close>

fun split_on :: "char \<Rightarrow> string \<Rightarrow> string list" where
  "split_on sep [] = [[]]"
| "split_on sep (c # cs) =
     (if c = sep then [] # split_on sep cs
      else (case split_on sep cs of
              [] \<Rightarrow> [[c]]
            | w # ws \<Rightarrow> (c # w) # ws))"


text \<open>\<^verbatim>\<open>str.lower\<close> on the ASCII letters; every other byte is left as it is.\<close>

definition lower_char :: "char \<Rightarrow> char" where
  "lower_char c =
     (if CHR ''A'' \<le> c \<and> c \<le> CHR ''Z'' then char_of (of_char c + (32::nat)) else c)"

definition lower :: "string \<Rightarrow> string" where
  "lower s = map lower_char s"


text \<open>\<^verbatim>\<open>str.rfind(c)\<close>: the last index of \<open>c\<close>, \<open>None\<close> for Python's \<open>-1\<close>.\<close>

definition rfind :: "char \<Rightarrow> string \<Rightarrow> nat option" where
  "rfind c s =
     (if c \<in> set s
      then Some (length s - 1 - length (takeWhile (\<lambda>x. x \<noteq> c) (rev s)))
      else None)"

text \<open>
  A pathlib path is the list of its parts (POSIX flavour): an absolute path starts with the
  part \<open>''/''\<close>; empty parts and \<open>''.''\<close> are dropped when a string is parsed.
\<close>

type_synonym path = "string list"

definition Path :: "string \<Rightarrow> path" where
  "Path s =
     (if s \<noteq> [] \<and> hd s = CHR ''/'' then [''/''] else []) @
     filter (\<lambda>p. p \<noteq> [] \<and> p \<noteq> ''.'') (split_on (CHR ''/'') s)"

text \<open>\<^verbatim>\<open>p / s\<close> and \<^verbatim>\<open>p.joinpath(s)\<close>: an absolute right operand replaces the left one.\<close>

definition joinpath :: "path \<Rightarrow> string \<Rightarrow> path" where
  "joinpath p s =
     (let q = Path s in if q \<noteq> [] \<and> hd q = ''/'' then q else p @ q)"


definition name :: "path \<Rightarrow> string" where
  "name p = (if p = [] \<or> p = [''/''] then [] else last p)"

text \<open>
  \<^verbatim>\<open>PurePath.stem\<close>: the name up to its last dot, when that dot is neither the first
  nor the last character of the name.
\<close>

definition stem :: "path \<Rightarrow> string" where
  "stem p =
     (let n = name p in
      case rfind (CHR ''.'') n of
        None \<Rightarrow> n
      | Some i \<Rightarrow> if 0 < i \<and> i < length n - 1 then take i n else n)"

definition stooq_path :: path where
  "stooq_path = Path ''stooq''"

section \<open>Tables\<close>

text \<open>
  A cell of a price or volume column as \<^verbatim>\<open>read_csv\<close> leaves it: a number, a text
  that the column's type inference kept as a string, or a missing value. Numbers are only
  carried and compared for equality here, never computed with.
\<close>

datatype cell = Num real | Text string | NaN

text \<open>A pandas Timestamp by its calendar fields: year, month, day, nanosecond of the day.\<close>

type_synonym timestamp = "int \<times> int \<times> int \<times> int"



text \<open>
  One observation: the columns selected by \<^verbatim>\<open>usecols\<close>, with the ticker read as a
  string and the date as the Timestamp that \<^verbatim>\<open>parse_dates\<close> made of it, \<open>None\<close>
  standing for a missing date (NaT). The labels \<open>ticker\<close> and \<open>date\<close> (or
  \<open>date_time\<close>) are columns of a freshly parsed frame and index levels after
  \<^verbatim>\<open>set_index\<close>; a row carries them either way.
\<close>

record row =
  ticker :: string
  date :: "timestamp option"
  open_px :: cell
  high :: cell
  low :: cell
  close_px :: cell
  volume :: cell

type_synonym frame = "row list"

datatype colspec = Col string | Cols "string list"

record csv_args =
  names :: "string list"
  usecols :: "colspec list"
  header :: nat
  parse_dates :: "colspec list"

text \<open>
  What the notebook takes from outside: the directory listing \<^verbatim>\<open>path.glob('**/*.txt')\<close>
  in the order the file system yields it, the library call \<^verbatim>\<open>pd.read_csv\<close>, which
  returns a frame or raises, and the number parser behind \<^verbatim>\<open>pd.to_numeric\<close>.
\<close>

record env =
  glob_txt :: "path \<Rightarrow> path list"
  read_csv :: "csv_args \<Rightarrow> path \<Rightarrow> error + frame"
  str_to_float :: "string \<Rightarrow> real option"

text \<open>What the run shows on the console and reads from disk, in order.\<close>

datatype event =
    PrintPath string
  | PrintCount nat
  | PrintMissing string
  | PrintAssetClass string
  | PrintObservations frame
  | PrintInfo frame
  | ReadCsv csv_args path

section \<open>\<^verbatim>\<open>get_stooq_prices_and_tickers\<close>\<close>

text \<open>\<^verbatim>\<open>s.iloc[0]\<close> and \<^verbatim>\<open>xs[0]\<close>: IndexError on an empty sequence.\<close>

definition iloc0 :: "'a list \<Rightarrow> error + 'a" where
  "iloc0 xs = (case xs of [] \<Rightarrow> Inl IndexError | x # _ \<Rightarrow> Inr x)"

text \<open>The local variables of the loop over the files, and what it has done so far.\<close>

record loop_state =
  prices :: "frame list"
  tickers :: "string \<rightharpoonup> string"
  trace :: "event list"

definition emit :: "event \<Rightarrow> loop_state \<Rightarrow> loop_state" where
  "emit e st = st\<lparr>trace := trace st @ [e]\<rparr>"

text \<open>
  The body of the \<^verbatim>\<open>try\<close>. An exception leaves every effect that came before it:
  \<^verbatim>\<open>prices.append(df)\<close> runs before \<^verbatim>\<open>df.ticker.iloc[0]\<close>, so a frame without
  rows is already in the list when IndexError is raised. The right-hand side of the
  assignment to \<^verbatim>\<open>tickers[...]\<close> is evaluated before the key.
\<close>

definition try_body :: "env \<Rightarrow> csv_args \<Rightarrow> path \<Rightarrow> loop_state \<Rightarrow> loop_state \<times> error option" where
  "try_body ev args file st =
     (let st1 = emit (ReadCsv args file) st in
      case read_csv ev args file of
        Inl e \<Rightarrow> (st1, Some e)
      | Inr df \<Rightarrow>
          (let st2 = st1\<lparr>prices := prices st1 @ [df]\<rparr> in
           case iloc0 (split_on (CHR ''.'') (stem file)) of
             Inl e \<Rightarrow> (st2, Some e)
           | Inr s \<Rightarrow>
               (case iloc0 (map ticker df) of
                  Inl e \<Rightarrow> (st2, Some e)
                | Inr t \<Rightarrow> (st2\<lparr>tickers := (tickers st2)(t \<mapsto> lower s)\<rparr>, None))))"

text \<open>
  \<^verbatim>\<open>for i, file in enumerate(files, 1)\<close> with its \<^verbatim>\<open>try\<close>/\<^verbatim>\<open>except\<close>: the two
  caught exceptions are printed and the loop goes on; any other one leaves the loop.
\<close>

fun for_files :: "env \<Rightarrow> csv_args \<Rightarrow> nat \<Rightarrow> path list \<Rightarrow> loop_state \<Rightarrow> loop_state \<times> error option" where
  "for_files ev args i [] st = (st, None)"
| "for_files ev args i (file # files) st =
     (let st0 = (if i mod 500 = 0 then emit (PrintCount i) st else st) in
      case try_body ev args file st0 of
        (st1, None) \<Rightarrow> for_files ev args (i + 1) files st1
      | (st1, Some e) \<Rightarrow>
          if e = EmptyDataError \<or> e = IndexError
          then for_files ev args (i + 1) files (emit (PrintMissing (stem file)) st1)
          else (st1, Some e))"

text \<open>\<^verbatim>\<open>pd.concat(frames, ignore_index=True)\<close>: ValueError when there is nothing to concatenate.\<close>

definition pd_concat :: "frame list \<Rightarrow> error + frame" where
  "pd_concat dfs = (if dfs = [] then Inl ValueError else Inr (concat dfs))"

text \<open>
  \<^verbatim>\<open>pd.to_numeric(x, errors='coerce')\<close> on one cell: a number and a missing value stay,
  a text becomes the number it reads as, or NaN.
\<close>

definition to_numeric :: "env \<Rightarrow> cell \<Rightarrow> cell" where
  "to_numeric ev c =
     (case c of
        Num x \<Rightarrow> Num x
      | NaN \<Rightarrow> NaN
      | Text s \<Rightarrow> (case str_to_float ev s of Some x \<Rightarrow> Num x | None \<Rightarrow> NaN))"

text \<open>\<^verbatim>\<open>.apply(lambda x: pd.to_numeric(x, errors='coerce'))\<close> over the five value columns.\<close>

definition apply_to_numeric :: "env \<Rightarrow> frame \<Rightarrow> frame" where
  "apply_to_numeric ev df =
     map (\<lambda>r. r\<lparr>open_px := to_numeric ev (open_px r),
                high := to_numeric ev (high r),
                low := to_numeric ev (low r),
                close_px := to_numeric ev (close_px r),
                volume := to_numeric ev (volume r)\<rparr>) df"

text \<open>
  \<^verbatim>\<open>set_index\<close> and \<^verbatim>\<open>reset_index\<close> move the labels \<open>ticker\<close> and \<open>date\<close> between
  the columns and the index; \<^verbatim>\<open>rename(columns=str.lower)\<close> maps the column labels, which
  \<open>names\<close> already gives in lower case. None of them touches a row.
\<close>

definition rename_lower :: "frame \<Rightarrow> frame" where
  "rename_lower df = df"

definition set_index :: "frame \<Rightarrow> frame" where
  "set_index df = df"

definition reset_index :: "frame \<Rightarrow> frame" where
  "reset_index df = df"

definition read_args :: "string \<Rightarrow> csv_args" where
  "read_args frequency =
     (let parse_dates = (if frequency \<in> set [''5 min'', ''hourly'']
                         then [Cols [''date'', ''time'']] else [Col ''date''])
      in \<lparr>names = [''ticker'', ''freq'', ''date'', ''time'',
                    ''open'', ''high'', ''low'', ''close'', ''volume'', ''openint''],
           usecols = map Col [''ticker'', ''open'', ''high'', ''low'', ''close'', ''volume'']
                       @ parse_dates,
           header = 0,
           parse_dates = parse_dates\<rparr>)"

definition data_dir :: "string \<Rightarrow> string \<Rightarrow> string \<Rightarrow> path" where
  "data_dir frequency market asset_class =
     joinpath (joinpath (joinpath (joinpath stooq_path ''data/data'') frequency) market)
       asset_class"

text \<open>\<^verbatim>\<open>path.as_posix()\<close>: the parts joined by slashes, the root part standing for itself.\<close>

fun as_posix :: "path \<Rightarrow> string" where
  "as_posix [] = ''.''"
| "as_posix [p] = p"
| "as_posix (p # q # ps) =
     (if p = ''/'' then p @ as_posix (q # ps) else p @ ''/'' @ as_posix (q # ps))"

text \<open>
  The function returns what it printed and read together with its result: the pair
  \<open>(prices, tickers)\<close>, or the exception that leaves it.
\<close>

definition get_stooq_prices_and_tickers ::
  "env \<Rightarrow> string \<Rightarrow> string \<Rightarrow> string \<Rightarrow> event list \<times> (error + frame \<times> (string \<rightharpoonup> string))" where
  "get_stooq_prices_and_tickers ev frequency market asset_class =
     (let args = read_args frequency;
          path = data_dir frequency market asset_class;
          st0 = \<lparr>prices = [], tickers = Map.empty, trace = [PrintPath (as_posix path)]\<rparr>;
          files = glob_txt ev path
      in case for_files ev args 1 files st0 of
           (st, Some e) \<Rightarrow> (trace st, Inl e)
         | (st, None) \<Rightarrow>
             (case pd_concat (prices st) of
                Inl e \<Rightarrow> (trace st, Inl e)
              | Inr df \<Rightarrow>
                  (trace st,
                   Inr (apply_to_numeric ev (set_index (rename_lower df)), tickers st))))"

section \<open>The cell that fills the store\<close>

text \<open>
  \<^verbatim>\<open>sort_index()\<close> on the (ticker, date) index: a stable sort by the pair, a missing
  date after every date of the same ticker (\<open>na_position='last'\<close>).
\<close>

definition na_last :: "timestamp option \<Rightarrow> nat \<times> timestamp" where
  "na_last d = (case d of None \<Rightarrow> (1, (0, 0, 0, 0)) | Some t \<Rightarrow> (0, t))"

definition sort_index :: "frame \<Rightarrow> frame" where
  "sort_index df = sort_key (\<lambda>r. (ticker r, na_last (date r))) df"

text \<open>
  The index keeps each level as sorted values and, per row, the position of its value: the
  code. A missing date has the code \<open>-1\<close>, below the code of every date. Slicing asks
  that the rows be in the order of their codes (\<^verbatim>\<open>is_lexsorted\<close>).
\<close>

definition level_code :: "timestamp option \<Rightarrow> nat \<times> timestamp" where
  "level_code d = (case d of None \<Rightarrow> (0, (0, 0, 0, 0)) | Some t \<Rightarrow> (1, t))"

definition is_lexsorted :: "frame \<Rightarrow> bool" where
  "is_lexsorted df = sorted (map (\<lambda>r. (ticker r, level_code (date r))) df)"

text \<open>
  \<^verbatim>\<open>.loc[idx[:, '2000': '2019'], :]\<close>: on the date level the two strings stand for the
  first instant of 2000 and the last nanosecond of 2019, both included. The slice raises
  UnsortedIndexError on an index that is not in the order of its codes, which is what
  \<^verbatim>\<open>sort_index\<close> leaves when a ticker has a dated row and a row without date; a row
  without date is never in the slice.
\<close>

definition slice_lower :: timestamp where
  "slice_lower = (2000, 1, 1, 0)"

definition slice_upper :: timestamp where
  "slice_upper = (2019, 12, 31, 86399999999999)"

definition in_slice :: "row \<Rightarrow> bool" where
  "in_slice r =
     (case date r of None \<Rightarrow> False | Some d \<Rightarrow> slice_lower \<le> d \<and> d \<le> slice_upper)"

definition loc_2000_2019 :: "frame \<Rightarrow> error + frame" where
  "loc_2000_2019 df =
     (if \<not> is_lexsorted df then Inl UnsortedIndexError else Inr (filter in_slice df))"

text \<open>
  \<^verbatim>\<open>drop_duplicates()\<close> with its defaults (all columns, \<open>keep='first'\<close>): a row goes
  when an equal row has been seen before it. Missing values count as equal to each other.
\<close>

fun duplicated_from :: "row list \<Rightarrow> frame \<Rightarrow> frame" where
  "duplicated_from seen [] = []"
| "duplicated_from seen (r # rs) =
     (if r \<in> set seen then duplicated_from seen rs
      else r # duplicated_from (r # seen) rs)"

definition drop_duplicates :: "frame \<Rightarrow> frame" where
  "drop_duplicates df = duplicated_from [] df"







text \<open>What is done to the prices between the call and the write.\<close>

definition prepare :: "frame \<Rightarrow> error + frame" where
  "prepare df =
     (case loc_2000_2019 (sort_index df) of
        Inl e \<Rightarrow> Inl e
      | Inr prices1 \<Rightarrow> Inr (sort_index (set_index (drop_duplicates (reset_index prices1)))))"





section \<open>\<^verbatim>\<open>download_price_data\<close>\<close>

text \<open>
  The file system the function works on. A zip archive gives its member names in order and
  the lines of a member, or the exception that reading the member raises.
\<close>

record zip_archive =
  namelist :: "string list"
  readlines :: "string \<Rightarrow> error + string list"

datatype node = Dir | File "string list" | Zip zip_archive

text \<open>
  \<open>refuses\<close> holds of the paths that the operating system does not open for writing
  although their directory is there (a dangling symbolic link, a reserved device name, an
  over-long path): opening one raises FileNotFoundError. \<open>complaints\<close> are the printed
  exceptions.
\<close>

record fs =
  nodes :: "path \<rightharpoonup> node"
  refuses :: "path \<Rightarrow> bool"
  complaints :: "path list"











section \<open>Sample inputs\<close>

text \<open>
  A directory of three files under every dataset path: one with an observation of 2010 and
  one of 1999, an empty one, and one that repeats the observation of 2010 and gives it twice
  more, with another close and with a close that is no number; the close column of this
  last file is therefore read as text.
\<close>

definition sample_row :: row where
  "sample_row =
     \<lparr>ticker = ''AAA.US'', date = Some (2010, 7, 21, 0), open_px = Num 10, high = Num 11,
      low = Num 9, close_px = Num 10, volume = Num 1000\<rparr>"

definition sample_env :: env where
  "sample_env =
     \<lparr>glob_txt = (\<lambda>p. [p @ [''aaa.us.txt''], p @ [''empty.us.txt''], p @ [''AAA_2.us.txt'']]),
      read_csv = (\<lambda>args file.
         if name file = ''aaa.us.txt''
         then Inr [sample_row, sample_row\<lparr>date := Some (1999, 12, 31, 0)\<rparr>]
         else if name file = ''AAA_2.us.txt''
         then Inr [sample_row\<lparr>close_px := Text ''10''\<rparr>,
                   sample_row\<lparr>close_px := Text ''12''\<rparr>,
                   sample_row\<lparr>close_px := Text ''abc''\<rparr>]
         else Inl EmptyDataError),
      str_to_float = (\<lambda>s. if s = ''10'' then Some 10 else if s = ''12'' then Some 12
                           else None)\<rparr>"

text \<open>
  The same directory with a third file that has a line of eleven fields, on which the
  parser raises ParserError.
\<close>

definition broken_env :: env where
  "broken_env =
     \<lparr>glob_txt = (\<lambda>p. [p @ [''aaa.us.txt''], p @ [''empty.us.txt''], p @ [''bad.us.txt'']]),
      read_csv = (\<lambda>args file.
         if name file = ''aaa.us.txt''
         then Inr [sample_row, sample_row\<lparr>date := Some (1999, 12, 31, 0)\<rparr>]
         else if name file = ''bad.us.txt'' then Inl ParserError
         else Inl EmptyDataError),
      str_to_float = (\<lambda>s. None)\<rparr>"


text \<open>A dataset directory without any matching file.\<close>

definition empty_env :: env where
  "empty_env =
     \<lparr>glob_txt = (\<lambda>p. []), read_csv = (\<lambda>args file. Inl EmptyDataError),
      str_to_float = (\<lambda>s. None)\<rparr>"




section \<open>Strings and paths\<close>

lemma split_on_nonempty: "split_on c s \<noteq> []"
  by (induction s) (auto split: list.splits)

lemma hd_split_on: "split_on c s = w # ws \<Longrightarrow> w = takeWhile (\<lambda>x. x \<noteq> c) s"
  by (induction s arbitrary: w ws) (auto simp: split_on_nonempty split: list.splits if_splits)

lemma iloc0_split_on: "iloc0 (split_on c s) = Inr (takeWhile (\<lambda>x. x \<noteq> c) s)"
  using split_on_nonempty [of c s] hd_split_on [of c s]
  by (auto simp: iloc0_def split: list.splits)

lemma takeWhile_take_ge:
  "length (takeWhile P xs) \<le> n \<Longrightarrow> takeWhile P (take n xs) = takeWhile P xs"
  by (induction xs arbitrary: n) (auto simp: take_Cons split: nat.splits)

lemma first_and_last_occurrence:
  "c \<in> set s \<Longrightarrow>
   length (takeWhile (\<lambda>x. x \<noteq> c) s) + length (takeWhile (\<lambda>x. x \<noteq> c) (rev s)) < length s"
proof (induction s)
  case Nil
  then show ?case by simp
next
  case (Cons a s)
  show ?case
  proof (cases "a = c")
    case True
    have "length (takeWhile (\<lambda>x. x \<noteq> c) (rev s)) \<le> length s"
      using length_takeWhile_le [of "\<lambda>x. x \<noteq> c" "rev s"] by simp
    then have "length (takeWhile (\<lambda>x. x \<noteq> c) (rev s @ [a])) \<le> length s"
      using True by (simp add: takeWhile_append)
    then show ?thesis using True by simp
  next
    case False
    with Cons have "length (takeWhile (\<lambda>x. x \<noteq> c) s)
        + length (takeWhile (\<lambda>x. x \<noteq> c) (rev s)) < length s"
      by simp
    moreover have "takeWhile (\<lambda>x. x \<noteq> c) (rev s @ [a]) = takeWhile (\<lambda>x. x \<noteq> c) (rev s)"
      using False Cons.prems by (auto simp: takeWhile_append)
    ultimately show ?thesis using False by simp
  qed
qed

lemma rfind_after_first:
  assumes "rfind c s = Some i"
  shows "length (takeWhile (\<lambda>x. x \<noteq> c) s) \<le> i"
proof -
  from assms have mem: "c \<in> set s"
    and i: "i = length s - 1 - length (takeWhile (\<lambda>x. x \<noteq> c) (rev s))"
    by (auto simp: rfind_def split: if_splits)
  from first_and_last_occurrence [OF mem] i show ?thesis by simp
qed

text \<open>The first field of the stem is the part of the file name before its first dot.\<close>

lemma stem_before_dot:
  "takeWhile (\<lambda>x. x \<noteq> CHR ''.'') (stem p) = takeWhile (\<lambda>x. x \<noteq> CHR ''.'') (name p)"
  by (auto simp: stem_def Let_def takeWhile_take_ge dest: rfind_after_first split: option.splits)

lemma name_snoc: "n \<noteq> ''/'' \<Longrightarrow> name (p @ [n]) = n"
  by (auto simp: name_def)

lemma lower_sample: "lower ''AAA_2'' = ''aaa_2''"
  by code_simp

section \<open>The loop over the files\<close>

lemma try_body_Inl:
  "read_csv ev args f = Inl e \<Longrightarrow> try_body ev args f st = (emit (ReadCsv args f) st, Some e)"
  by (simp add: try_body_def)

lemma try_body_Nil:
  "read_csv ev args f = Inr [] \<Longrightarrow>
   try_body ev args f st =
     ((emit (ReadCsv args f) st)\<lparr>prices := prices st @ [[]]\<rparr>, Some IndexError)"
  by (simp add: try_body_def iloc0_split_on emit_def) (simp add: iloc0_def)

lemma try_body_Cons:
  "read_csv ev args f = Inr (r # rs) \<Longrightarrow>
   try_body ev args f st =
     ((emit (ReadCsv args f) st)
        \<lparr>prices := prices st @ [r # rs],
         tickers := (tickers st)(ticker r \<mapsto> lower (takeWhile (\<lambda>x. x \<noteq> CHR ''.'') (name f)))\<rparr>,
      None)"
  by (simp add: try_body_def iloc0_split_on emit_def stem_before_dot) (simp add: iloc0_def)

lemma emit_simps:
  "prices (emit e st) = prices st" "tickers (emit e st) = tickers st"
  "trace (emit e st) = trace st @ [e]"
  by (simp_all add: emit_def)

text \<open>One round of the loop, by what \<^verbatim>\<open>read_csv\<close> does on the file.\<close>

lemma for_files_Cons:
  "for_files ev args i (f # fs) st =
     (let st1 = emit (ReadCsv args f) (if i mod 500 = 0 then emit (PrintCount i) st else st) in
      case read_csv ev args f of
        Inl e \<Rightarrow>
          if e = EmptyDataError \<or> e = IndexError
          then for_files ev args (i + 1) fs (emit (PrintMissing (stem f)) st1)
          else (st1, Some e)
      | Inr [] \<Rightarrow>
          for_files ev args (i + 1) fs
            (emit (PrintMissing (stem f)) (st1\<lparr>prices := prices st1 @ [[]]\<rparr>))
      | Inr (r # rs) \<Rightarrow>
          for_files ev args (i + 1) fs
            (st1\<lparr>prices := prices st1 @ [r # rs],
                 tickers := (tickers st1)(ticker r \<mapsto>
                    lower (takeWhile (\<lambda>x. x \<noteq> CHR ''.'') (name f)))\<rparr>))"
proof (cases "read_csv ev args f")
  case (Inl e)
  then show ?thesis by (simp add: try_body_Inl Let_def)
next
  case (Inr df)
  then show ?thesis
    by (cases df) (simp_all add: try_body_Nil try_body_Cons Let_def emit_simps)
qed

declare for_files.simps(2) [simp del]

lemma for_files_error:
  "(snd (for_files ev args i files st) = None) =
   (\<forall>f\<in>set files. \<forall>e. read_csv ev args f = Inl e \<longrightarrow> e = EmptyDataError \<or> e = IndexError)"
  by (induction files arbitrary: i st)
     (auto simp: for_files_Cons Let_def split: sum.splits list.splits)

lemma for_files_prices:
  "for_files ev args i files st = (st', None) \<Longrightarrow>
   prices st' = prices st @ [df. f \<leftarrow> files, Inr df \<leftarrow> [read_csv ev args f]]"
  by (induction files arbitrary: i st)
     (auto simp: for_files_Cons Let_def emit_simps split: sum.splits list.splits if_splits)

lemma for_files_reads:
  "for_files ev args i files st = (st', None) \<Longrightarrow>
   [(a, p). ReadCsv a p \<leftarrow> trace st'] =
     [(a, p). ReadCsv a p \<leftarrow> trace st] @ map (Pair args) files"
  by (induction files arbitrary: i st)
     (auto simp: for_files_Cons Let_def emit_simps split: sum.splits list.splits if_splits)

lemma for_files_missing:
  "for_files ev args i files st = (st', None) \<Longrightarrow>
   [s. PrintMissing s \<leftarrow> trace st'] =
     [s. PrintMissing s \<leftarrow> trace st] @
     [stem f. f \<leftarrow> files, \<not> (\<exists>r rs. read_csv ev args f = Inr (r # rs))]"
  by (induction files arbitrary: i st)
     (auto simp: for_files_Cons Let_def emit_simps split: sum.splits list.splits if_splits)

lemma for_files_tickers:
  "for_files ev args i files st = (st', None) \<Longrightarrow>
   tickers st' t =
     (case [f \<leftarrow> files. \<exists>r rs. read_csv ev args f = Inr (r # rs) \<and> ticker r = t] of
        [] \<Rightarrow> tickers st t
      | f # fs \<Rightarrow> Some (lower (takeWhile (\<lambda>x. x \<noteq> CHR ''.'') (name (last (f # fs))))))"
  by (induction files arbitrary: i st)
     (auto simp: for_files_Cons Let_def emit_simps split: sum.splits list.splits if_splits)

lemma sample_run:
  "get_stooq_prices_and_tickers sample_env fr m ac =
     ([PrintPath (as_posix (data_dir fr m ac)),
       ReadCsv (read_args fr) (data_dir fr m ac @ [''aaa.us.txt'']),
       ReadCsv (read_args fr) (data_dir fr m ac @ [''empty.us.txt'']),
       PrintMissing ''empty.us'',
       ReadCsv (read_args fr) (data_dir fr m ac @ [''AAA_2.us.txt''])],
      Inr ([sample_row, sample_row\<lparr>date := Some (1999, 12, 31, 0)\<rparr>,
            sample_row, sample_row\<lparr>close_px := Num 12\<rparr>,
            sample_row\<lparr>close_px := NaN\<rparr>],
           [''AAA.US'' \<mapsto> ''aaa_2'']))"
  by (simp add: get_stooq_prices_and_tickers_def sample_env_def for_files_Cons name_snoc
        emit_def pd_concat_def apply_to_numeric_def to_numeric_def set_index_def
        rename_lower_def sample_row_def Let_def lower_sample stem_def rfind_def)

section \<open>What the function returns\<close>

lemma get_stooq_unfold:
  "get_stooq_prices_and_tickers ev fr m ac =
     (case for_files ev (read_args fr) 1 (glob_txt ev (data_dir fr m ac))
             \<lparr>prices = [], tickers = Map.empty,
              trace = [PrintPath (as_posix (data_dir fr m ac))]\<rparr> of
        (st, Some e) \<Rightarrow> (trace st, Inl e)
      | (st, None) \<Rightarrow>
          (if prices st = [] then (trace st, Inl ValueError)
           else (trace st, Inr (apply_to_numeric ev (concat (prices st)), tickers st))))"
  by (simp add: get_stooq_prices_and_tickers_def Let_def pd_concat_def set_index_def
        rename_lower_def split: prod.splits option.splits)

lemma frames_nonempty:
  "([df. f \<leftarrow> files, Inr df \<leftarrow> [read_csv ev args f]] \<noteq> []) =
   (\<exists>f\<in>set files. \<exists>df. read_csv ev args f = Inr df)"
  by (induction files) (auto split: sum.splits)

lemma get_stooq_Inr:
  assumes "get_stooq_prices_and_tickers ev fr m ac = (tr, Inr (df, tks))"
  obtains st where
    "for_files ev (read_args fr) 1 (glob_txt ev (data_dir fr m ac))
       \<lparr>prices = [], tickers = Map.empty,
        trace = [PrintPath (as_posix (data_dir fr m ac))]\<rparr> = (st, None)"
    "prices st \<noteq> []" "df = apply_to_numeric ev (concat (prices st))"
    "tks = tickers st" "tr = trace st"
  using assms unfolding get_stooq_unfold
  by (auto split: prod.splits option.splits if_splits)

lemma get_stooq_returns:
  assumes caught: "\<forall>f\<in>set (glob_txt ev (data_dir fr m ac)). \<forall>e.
             read_csv ev (read_args fr) f = Inl e \<longrightarrow> e = EmptyDataError \<or> e = IndexError"
    and some: "\<exists>f\<in>set (glob_txt ev (data_dir fr m ac)). \<exists>df.
             read_csv ev (read_args fr) f = Inr df"
  shows "\<exists>tr tks. get_stooq_prices_and_tickers ev fr m ac =
           (tr, Inr (apply_to_numeric ev
                  (concat [df. f \<leftarrow> glob_txt ev (data_dir fr m ac),
                               Inr df \<leftarrow> [read_csv ev (read_args fr) f]]), tks))"
proof -
  let ?st0 = "\<lparr>prices = [], tickers = Map.empty,
        trace = [PrintPath (as_posix (data_dir fr m ac))]\<rparr>"
  let ?run = "for_files ev (read_args fr) 1 (glob_txt ev (data_dir fr m ac)) ?st0"
  from caught have "snd ?run = None"
    by (simp only: for_files_error)
  then obtain st where run: "?run = (st, None)"
    by (cases ?run) auto
  from for_files_prices [OF run]
  have pr: "prices st = [df. f \<leftarrow> glob_txt ev (data_dir fr m ac),
                               Inr df \<leftarrow> [read_csv ev (read_args fr) f]]"
    by simp
  with some have "prices st \<noteq> []"
    by (simp only: frames_nonempty)
  with run pr show ?thesis
    unfolding get_stooq_unfold by simp
qed

lemma for_files_append:
  "for_files ev args i (pre @ rest) st =
     (case for_files ev args i pre st of
        (st1, None) \<Rightarrow> for_files ev args (i + length pre) rest st1
      | (st1, Some e) \<Rightarrow> (st1, Some e))"
  by (induction pre arbitrary: i st)
     (auto simp: for_files_Cons Let_def split: sum.splits list.splits prod.splits option.splits)

lemma for_files_skip:
  assumes pre: "\<forall>g\<in>set pre. \<forall>e. read_csv ev args g = Inl e \<longrightarrow> e = EmptyDataError \<or> e = IndexError"
    and f: "read_csv ev args f = Inl EmptyDataError \<or> read_csv ev args f = Inl IndexError \<or>
            read_csv ev args f = Inr []"
  shows "\<exists>st1 st2.
           for_files ev args i pre st = (st1, None) \<and>
           for_files ev args i (pre @ f # post) st =
             for_files ev args (i + length pre + 1) post st2 \<and>
           concat (prices st2) = concat (prices st1) \<and>
           tickers st2 = tickers st1 \<and>
           trace st2 = trace st1 @
             (if (i + length pre) mod 500 = 0 then [PrintCount (i + length pre)] else []) @
             [ReadCsv args f, PrintMissing (stem f)]"
proof -
  from pre have "snd (for_files ev args i pre st) = None"
    by (simp only: for_files_error)
  then obtain st1 where st1: "for_files ev args i pre st = (st1, None)"
    by (cases "for_files ev args i pre st") auto
  let ?k = "i + length pre"
  let ?st = "emit (ReadCsv args f) (if ?k mod 500 = 0 then emit (PrintCount ?k) st1 else st1)"
  define st2 where "st2 = emit (PrintMissing (stem f))
     (case read_csv ev args f of Inl e \<Rightarrow> ?st | Inr d \<Rightarrow> ?st\<lparr>prices := prices ?st @ [[]]\<rparr>)"
  have run: "for_files ev args i (pre @ f # post) st = for_files ev args (?k + 1) post st2"
    using f unfolding for_files_append st1 st2_def
    by (auto simp: for_files_Cons Let_def)
  have "concat (prices st2) = concat (prices st1)" "tickers st2 = tickers st1"
    "trace st2 = trace st1 @ (if ?k mod 500 = 0 then [PrintCount ?k] else []) @
       [ReadCsv args f, PrintMissing (stem f)]"
    using f unfolding st2_def by (auto simp: emit_def)
  with st1 run show ?thesis by blast
qed

lemma get_stooq_trace:
  "fst (get_stooq_prices_and_tickers ev fr m ac) =
     trace (fst (for_files ev (read_args fr) 1 (glob_txt ev (data_dir fr m ac))
             \<lparr>prices = [], tickers = Map.empty,
              trace = [PrintPath (as_posix (data_dir fr m ac))]\<rparr>))"
  unfolding get_stooq_unfold by (simp split: prod.splits option.splits)

lemma for_files_reads_upto:
  fixes ev args
  defines "caught \<equiv> \<lambda>f. \<forall>e. read_csv ev args f = Inl e \<longrightarrow> e = EmptyDataError \<or> e = IndexError"
  shows "[(a, p). ReadCsv a p \<leftarrow> trace (fst (for_files ev args i files st))] =
     [(a, p). ReadCsv a p \<leftarrow> trace st] @
     map (Pair args) (takeWhile caught files @ take 1 (dropWhile caught files))"
proof (induction files arbitrary: i st)
  case Nil
  then show ?case by simp
next
  case (Cons f fs)
  show ?case
  proof (cases "caught f")
    case True
    then show ?thesis
      using Cons.IH
      by (cases "read_csv ev args f")
         (auto simp: caught_def for_files_Cons Let_def emit_simps split: list.splits)
  next
    case False
    then obtain e where "read_csv ev args f = Inl e" "e \<noteq> EmptyDataError" "e \<noteq> IndexError"
      by (auto simp: caught_def)
    with False show ?thesis
      by (simp add: for_files_Cons Let_def emit_simps)
  qed
qed

lemma for_files_missing_upto:
  fixes ev args
  defines "caught \<equiv> \<lambda>f. \<forall>e. read_csv ev args f = Inl e \<longrightarrow> e = EmptyDataError \<or> e = IndexError"
  shows "[s. PrintMissing s \<leftarrow> trace (fst (for_files ev args i files st))] =
     [s. PrintMissing s \<leftarrow> trace st] @
     [stem f. f \<leftarrow> takeWhile caught files, \<not> (\<exists>r rs. read_csv ev args f = Inr (r # rs))]"
proof (induction files arbitrary: i st)
  case Nil
  then show ?case by simp
next
  case (Cons f fs)
  show ?case
  proof (cases "caught f")
    case True
    then show ?thesis
      using Cons.IH
      by (cases "read_csv ev args f")
         (auto simp: caught_def for_files_Cons Let_def emit_simps split: list.splits)
  next
    case False
    then obtain e where "read_csv ev args f = Inl e" "e \<noteq> EmptyDataError" "e \<noteq> IndexError"
      by (auto simp: caught_def)
    with False show ?thesis
      by (simp add: for_files_Cons Let_def emit_simps)
  qed
qed

lemma get_stooq_raises:
  assumes "\<not> ((\<forall>f\<in>set (glob_txt ev (data_dir fr m ac)). \<forall>e.
             read_csv ev (read_args fr) f = Inl e \<longrightarrow> e = EmptyDataError \<or> e = IndexError) \<and>
           (\<exists>f\<in>set (glob_txt ev (data_dir fr m ac)). \<exists>df.
             read_csv ev (read_args fr) f = Inr df))"
  shows "\<exists>e. snd (get_stooq_prices_and_tickers ev fr m ac) = Inl e"
proof -
  let ?files = "glob_txt ev (data_dir fr m ac)"
  let ?args = "read_args fr"
  let ?st0 = "\<lparr>prices = [], tickers = Map.empty,
        trace = [PrintPath (as_posix (data_dir fr m ac))]\<rparr>"
  let ?run = "for_files ev ?args 1 ?files ?st0"
  obtain st r where run: "?run = (st, r)"
    by (cases ?run) auto
  show ?thesis
  proof (cases r)
    case (Some e)
    with run show ?thesis
      unfolding get_stooq_unfold by simp
  next
    case None
    with run have ok: "?run = (st, None)"
      by simp
    then have "snd ?run = None"
      by simp
    then have "\<forall>f\<in>set ?files. \<forall>e.
        read_csv ev ?args f = Inl e \<longrightarrow> e = EmptyDataError \<or> e = IndexError"
      by (simp only: for_files_error)
    with assms have none: "\<not> (\<exists>f\<in>set ?files. \<exists>df. read_csv ev ?args f = Inr df)"
      by blast
    from for_files_prices [OF ok]
    have "prices st = [df. f \<leftarrow> ?files, Inr df \<leftarrow> [read_csv ev ?args f]]"
      by simp
    then have "(prices st \<noteq> []) = (\<exists>f\<in>set ?files. \<exists>df. read_csv ev ?args f = Inr df)"
      by (simp only: frames_nonempty)
    with none have "prices st = []"
      by simp
    with ok show ?thesis
      unfolding get_stooq_unfold by simp
  qed
qed

text \<open>
  C1, as stated, fails: not for every directory. Here the first file parses, the second is
  empty and is printed and skipped, and the third raises ParserError, which is not caught:
  the exception leaves the function, there is no combined result, and the rows of the
  first file appear in no result.
\<close>

theorem uncaught_error_discards_result:
  "get_stooq_prices_and_tickers broken_env ''daily'' ''us'' ''nasdaq etfs'' =
     ([PrintPath ''stooq/data/data/daily/us/nasdaq etfs'',
       ReadCsv (read_args ''daily'')
         [''stooq'', ''data'', ''data'', ''daily'', ''us'', ''nasdaq etfs'', ''aaa.us.txt''],
       ReadCsv (read_args ''daily'')
         [''stooq'', ''data'', ''data'', ''daily'', ''us'', ''nasdaq etfs'', ''empty.us.txt''],
       PrintMissing ''empty.us'',
       ReadCsv (read_args ''daily'')
         [''stooq'', ''data'', ''data'', ''daily'', ''us'', ''nasdaq etfs'', ''bad.us.txt'']],
      Inl ParserError)"
  by (simp add: get_stooq_prices_and_tickers_def broken_env_def for_files_Cons name_snoc
        emit_def Let_def stem_def rfind_def data_dir_def joinpath_def Path_def stooq_path_def)

text \<open>
  C1, amended. For every directory, the files are read in the order of enumeration, each
  once, up to and including the first file whose parse raises an exception other than
  EmptyDataError and IndexError (all of them when there is none), so nothing is retried;
  and \<open>data missing\<close> is printed once, in order, for each file before that point whose round
  raised one of the two. The round of such a file leaves the rows and the tickers gathered so
  far as they were, and the loop goes on with the next file. When no file raises another
  exception and at least one file yields a table, the function returns, and the prices hold
  the rows of every file that parsed, in the order of enumeration, those read before a
  failing file as well as those read after it. In every other case an exception leaves the
  function and no row is returned.
\<close>

theorem skip_and_continue:
  fixes ev fr m ac
  defines "files \<equiv> glob_txt ev (data_dir fr m ac)"
    and "args \<equiv> read_args fr"
    and "st0 \<equiv> \<lparr>prices = [], tickers = Map.empty,
                  trace = [PrintPath (as_posix (data_dir fr m ac))]\<rparr>"
  defines "caught \<equiv> \<lambda>f. \<forall>e. read_csv ev args f = Inl e \<longrightarrow> e = EmptyDataError \<or> e = IndexError"
    and "res \<equiv> get_stooq_prices_and_tickers ev fr m ac"
  shows
    "[(a, p). ReadCsv a p \<leftarrow> fst res] =
       map (Pair args) (takeWhile caught files @ take 1 (dropWhile caught files)) \<and>
     [s. PrintMissing s \<leftarrow> fst res] =
       [stem f. f \<leftarrow> takeWhile caught files, \<not> (\<exists>r rs. read_csv ev args f = Inr (r # rs))] \<and>
     (\<forall>pre f post.
        files = pre @ f # post \<and> (\<forall>g\<in>set pre. caught g) \<and>
        (read_csv ev args f = Inl EmptyDataError \<or> read_csv ev args f = Inl IndexError \<or>
         read_csv ev args f = Inr []) \<longrightarrow>
        (\<exists>st1 st2.
           for_files ev args 1 pre st0 = (st1, None) \<and>
           for_files ev args 1 files st0 = for_files ev args (length pre + 2) post st2 \<and>
           concat (prices st2) = concat (prices st1) \<and>
           tickers st2 = tickers st1 \<and>
           trace st2 = trace st1 @
             (if (length pre + 1) mod 500 = 0 then [PrintCount (length pre + 1)] else []) @
             [ReadCsv args f, PrintMissing (stem f)])) \<and>
     ((\<forall>f\<in>set files. caught f) \<and> (\<exists>f\<in>set files. \<exists>df. read_csv ev args f = Inr df) \<longrightarrow>
        (\<exists>tks. snd res =
           Inr (apply_to_numeric ev (concat [df. f \<leftarrow> files, Inr df \<leftarrow> [read_csv ev args f]]),
                tks))) \<and>
     (\<not> ((\<forall>f\<in>set files. caught f) \<and> (\<exists>f\<in>set files. \<exists>df. read_csv ev args f = Inr df)) \<longrightarrow>
        (\<exists>e. snd res = Inl e))"
proof -
  have tr: "fst res = trace (fst (for_files ev args 1 files st0))"
    unfolding res_def args_def files_def st0_def by (rule get_stooq_trace)
  have one: "[(a, p). ReadCsv a p \<leftarrow> fst res] =
       map (Pair args) (takeWhile caught files @ take 1 (dropWhile caught files))"
    unfolding tr caught_def for_files_reads_upto by (simp add: st0_def)
  have two: "[s. PrintMissing s \<leftarrow> fst res] =
       [stem f. f \<leftarrow> takeWhile caught files, \<not> (\<exists>r rs. read_csv ev args f = Inr (r # rs))]"
    unfolding tr caught_def for_files_missing_upto by (simp add: st0_def)
  have three: "\<exists>st1 st2.
           for_files ev args 1 pre st0 = (st1, None) \<and>
           for_files ev args 1 files st0 = for_files ev args (length pre + 2) post st2 \<and>
           concat (prices st2) = concat (prices st1) \<and>
           tickers st2 = tickers st1 \<and>
           trace st2 = trace st1 @
             (if (length pre + 1) mod 500 = 0 then [PrintCount (length pre + 1)] else []) @
             [ReadCsv args f, PrintMissing (stem f)]"
    if f: "files = pre @ f # post" and pre: "\<forall>g\<in>set pre. caught g"
      and fails: "read_csv ev args f = Inl EmptyDataError \<or> read_csv ev args f = Inl IndexError \<or>
         read_csv ev args f = Inr []"
    for pre f post
  proof -
    from pre have p: "\<forall>g\<in>set pre. \<forall>e. read_csv ev args g = Inl e \<longrightarrow>
        e = EmptyDataError \<or> e = IndexError"
      by (simp add: caught_def)
    from for_files_skip [OF p fails, of 1 st0 post] obtain st1 st2 where
      a: "for_files ev args 1 pre st0 = (st1, None)" and
      b: "for_files ev args 1 (pre @ f # post) st0 =
             for_files ev args (1 + length pre + 1) post st2" and
      c: "concat (prices st2) = concat (prices st1)" "tickers st2 = tickers st1" and
      d: "trace st2 = trace st1 @
             (if (1 + length pre) mod 500 = 0 then [PrintCount (1 + length pre)] else []) @
             [ReadCsv args f, PrintMissing (stem f)]"
      by blast
    from b have b': "for_files ev args 1 (pre @ f # post) st0 =
             for_files ev args (length pre + 2) post st2"
      by simp
    from d have d': "trace st2 = trace st1 @
             (if (length pre + 1) mod 500 = 0 then [PrintCount (length pre + 1)] else []) @
             [ReadCsv args f, PrintMissing (stem f)]"
      by simp
    from a b' c d' show ?thesis
      unfolding f by blast
  qed
  have four: "\<exists>tks. snd res =
           Inr (apply_to_numeric ev (concat [df. f \<leftarrow> files, Inr df \<leftarrow> [read_csv ev args f]]),
                tks)"
    if "(\<forall>f\<in>set files. caught f) \<and> (\<exists>f\<in>set files. \<exists>df. read_csv ev args f = Inr df)"
  proof -
    from that have c: "\<forall>f\<in>set (glob_txt ev (data_dir fr m ac)). \<forall>e.
             read_csv ev (read_args fr) f = Inl e \<longrightarrow> e = EmptyDataError \<or> e = IndexError"
      and s: "\<exists>f\<in>set (glob_txt ev (data_dir fr m ac)). \<exists>df.
             read_csv ev (read_args fr) f = Inr df"
      by (simp_all add: caught_def files_def args_def)
    from get_stooq_returns [OF c s] show ?thesis
      unfolding res_def files_def args_def by auto
  qed
  have five: "\<exists>e. snd res = Inl e"
    if "\<not> ((\<forall>f\<in>set files. caught f) \<and> (\<exists>f\<in>set files. \<exists>df. read_csv ev args f = Inr df))"
  proof -
    from that have "\<not> ((\<forall>f\<in>set (glob_txt ev (data_dir fr m ac)). \<forall>e.
             read_csv ev (read_args fr) f = Inl e \<longrightarrow> e = EmptyDataError \<or> e = IndexError) \<and>
           (\<exists>f\<in>set (glob_txt ev (data_dir fr m ac)). \<exists>df.
             read_csv ev (read_args fr) f = Inr df))"
      by (simp add: caught_def files_def args_def)
    from get_stooq_raises [OF this] show ?thesis
      unfolding res_def .
  qed
  from one two three four five show ?thesis
    by (intro conjI allI impI) blast+
qed

theorem skip_and_continue_witness:
  "(\<exists>tks. snd (get_stooq_prices_and_tickers sample_env ''daily'' ''us'' ''nasdaq etfs'') =
       Inr ([sample_row, sample_row\<lparr>date := Some (1999, 12, 31, 0)\<rparr>,
             sample_row, sample_row\<lparr>close_px := Num 12\<rparr>,
             sample_row\<lparr>close_px := NaN\<rparr>], tks)) \<and>
   [s. PrintMissing s \<leftarrow>
      fst (get_stooq_prices_and_tickers sample_env ''daily'' ''us'' ''nasdaq etfs'')] =
     [''empty.us''] \<and>
   (\<exists>st1 st2.
      for_files sample_env (read_args ''daily'') 1
        [data_dir ''daily'' ''us'' ''nasdaq etfs'' @ [''aaa.us.txt'']]
        \<lparr>prices = [], tickers = Map.empty,
         trace = [PrintPath (as_posix (data_dir ''daily'' ''us'' ''nasdaq etfs''))]\<rparr> =
          (st1, None) \<and>
      for_files sample_env (read_args ''daily'') 1
        (glob_txt sample_env (data_dir ''daily'' ''us'' ''nasdaq etfs''))
        \<lparr>prices = [], tickers = Map.empty,
         trace = [PrintPath (as_posix (data_dir ''daily'' ''us'' ''nasdaq etfs''))]\<rparr> =
      for_files sample_env (read_args ''daily'') 3
        [data_dir ''daily'' ''us'' ''nasdaq etfs'' @ [''AAA_2.us.txt'']] st2 \<and>
      concat (prices st2) = concat (prices st1) \<and>
      tickers st2 = tickers st1 \<and>
      trace st2 = trace st1 @
        [ReadCsv (read_args ''daily'')
           (data_dir ''daily'' ''us'' ''nasdaq etfs'' @ [''empty.us.txt'']),
         PrintMissing ''empty.us'']) \<and>
   (\<exists>e. snd (get_stooq_prices_and_tickers broken_env ''daily'' ''us'' ''nasdaq etfs'') = Inl e)"
proof -
  let ?dir = "data_dir ''daily'' ''us'' ''nasdaq etfs''"
  let ?args = "read_args ''daily''"
  note sample = skip_and_continue
    [where ev = sample_env and fr = "''daily''" and m = "''us''" and ac = "''nasdaq etfs''"]
  note broken = skip_and_continue
    [where ev = broken_env and fr = "''daily''" and m = "''us''" and ac = "''nasdaq etfs''"]
  have caught: "\<forall>f\<in>set (glob_txt sample_env ?dir). \<forall>e.
      read_csv sample_env ?args f = Inl e \<longrightarrow> e = EmptyDataError \<or> e = IndexError"
    by (simp add: sample_env_def name_snoc)
  have some: "\<exists>f\<in>set (glob_txt sample_env ?dir). \<exists>df. read_csv sample_env ?args f = Inr df"
    by (simp add: sample_env_def name_snoc)
  from sample [THEN conjunct2, THEN conjunct2, THEN conjunct2, THEN conjunct1, THEN mp,
    OF conjI [OF caught some]]
  have one: "\<exists>tks. snd (get_stooq_prices_and_tickers sample_env ''daily'' ''us'' ''nasdaq etfs'') =
       Inr ([sample_row, sample_row\<lparr>date := Some (1999, 12, 31, 0)\<rparr>,
             sample_row, sample_row\<lparr>close_px := Num 12\<rparr>,
             sample_row\<lparr>close_px := NaN\<rparr>], tks)"
    by (simp add: sample_run)
  from sample [THEN conjunct2, THEN conjunct1]
  have two: "[s. PrintMissing s \<leftarrow>
      fst (get_stooq_prices_and_tickers sample_env ''daily'' ''us'' ''nasdaq etfs'')] =
     [''empty.us'']"
    by (simp add: sample_run)
  have split: "glob_txt sample_env ?dir =
      [?dir @ [''aaa.us.txt'']] @ (?dir @ [''empty.us.txt'']) # [?dir @ [''AAA_2.us.txt'']]"
    by (simp add: sample_env_def)
  have before: "\<forall>g\<in>set [?dir @ [''aaa.us.txt'']]. \<forall>e.
      read_csv sample_env ?args g = Inl e \<longrightarrow> e = EmptyDataError \<or> e = IndexError"
    by (simp add: sample_env_def name_snoc)
  have empty: "read_csv sample_env ?args (?dir @ [''empty.us.txt'']) = Inl EmptyDataError \<or>
      read_csv sample_env ?args (?dir @ [''empty.us.txt'']) = Inl IndexError \<or>
      read_csv sample_env ?args (?dir @ [''empty.us.txt'']) = Inr []"
    by (simp add: sample_env_def name_snoc)
  have stem: "stem (?dir @ [''empty.us.txt'']) = ''empty.us''"
    by (simp add: stem_def name_snoc rfind_def)
  from sample [THEN conjunct2, THEN conjunct2, THEN conjunct1, THEN spec, THEN spec, THEN spec,
    THEN mp, OF conjI [OF split conjI [OF before empty]]]
  have three: "\<exists>st1 st2.
      for_files sample_env ?args 1 [?dir @ [''aaa.us.txt'']]
        \<lparr>prices = [], tickers = Map.empty, trace = [PrintPath (as_posix ?dir)]\<rparr> =
          (st1, None) \<and>
      for_files sample_env ?args 1 (glob_txt sample_env ?dir)
        \<lparr>prices = [], tickers = Map.empty, trace = [PrintPath (as_posix ?dir)]\<rparr> =
      for_files sample_env ?args 3 [?dir @ [''AAA_2.us.txt'']] st2 \<and>
      concat (prices st2) = concat (prices st1) \<and>
      tickers st2 = tickers st1 \<and>
      trace st2 = trace st1 @
        [ReadCsv ?args (?dir @ [''empty.us.txt'']), PrintMissing ''empty.us'']"
    by (simp add: stem numeral_3_eq_3)
  have bad: "\<not> ((\<forall>f\<in>set (glob_txt broken_env ?dir). \<forall>e.
        read_csv broken_env ?args f = Inl e \<longrightarrow> e = EmptyDataError \<or> e = IndexError) \<and>
      (\<exists>f\<in>set (glob_txt broken_env ?dir). \<exists>df. read_csv broken_env ?args f = Inr df))"
    by (simp add: broken_env_def name_snoc)
  from broken [THEN conjunct2, THEN conjunct2, THEN conjunct2, THEN conjunct2, THEN mp, OF bad]
  have four: "\<exists>e. snd (get_stooq_prices_and_tickers broken_env ''daily'' ''us'' ''nasdaq etfs'')
      = Inl e" .
  from one two three four show ?thesis by (intro conjI)
qed

lemma for_files_first_uncaught:
  assumes "\<forall>f\<in>set pre. \<forall>e. read_csv ev args f = Inl e \<longrightarrow> e = EmptyDataError \<or> e = IndexError"
    and "read_csv ev args f = Inl e" "e \<noteq> EmptyDataError" "e \<noteq> IndexError"
  shows "snd (for_files ev args i (pre @ f # post) st) = Some e"
  using assms
  by (induction pre arbitrary: i st)
     (auto simp: for_files_Cons Let_def split: sum.splits list.splits)

text \<open>
  C2, as stated, fails: with no matching file there is nothing to concatenate, and the
  ValueError of \<^verbatim>\<open>pd.concat\<close> leaves the function.
\<close>

theorem empty_directory_raises:
  "snd (get_stooq_prices_and_tickers empty_env ''daily'' ''us'' ''nasdaq etfs'') = Inl ValueError"
  by (simp add: get_stooq_prices_and_tickers_def empty_env_def pd_concat_def Let_def)

text \<open>
  C2, amended. The function returns a pair exactly when every file parses or raises one
  of the two caught exceptions and at least one file parses (its frame may have no rows).
  When every file raises a caught exception, and so when there is no file at all, it
  raises ValueError; and the first parse exception that is not one of the two is raised to
  the caller.
\<close>

theorem returns_iff_some_frame:
  "((\<exists>df tks. snd (get_stooq_prices_and_tickers ev fr m ac) = Inr (df, tks)) =
      ((\<forall>f\<in>set (glob_txt ev (data_dir fr m ac)). \<forall>e.
           read_csv ev (read_args fr) f = Inl e \<longrightarrow> e = EmptyDataError \<or> e = IndexError) \<and>
       (\<exists>f\<in>set (glob_txt ev (data_dir fr m ac)). \<exists>d.
           read_csv ev (read_args fr) f = Inr d))) \<and>
   ((\<forall>f\<in>set (glob_txt ev (data_dir fr m ac)).
        read_csv ev (read_args fr) f = Inl EmptyDataError \<or>
        read_csv ev (read_args fr) f = Inl IndexError) \<longrightarrow>
      snd (get_stooq_prices_and_tickers ev fr m ac) = Inl ValueError) \<and>
   (\<forall>pre f post e.
      glob_txt ev (data_dir fr m ac) = pre @ f # post \<and>
      (\<forall>g\<in>set pre. \<forall>x. read_csv ev (read_args fr) g = Inl x \<longrightarrow>
           x = EmptyDataError \<or> x = IndexError) \<and>
      read_csv ev (read_args fr) f = Inl e \<and> e \<noteq> EmptyDataError \<and> e \<noteq> IndexError \<longrightarrow>
      snd (get_stooq_prices_and_tickers ev fr m ac) = Inl e)"
proof -
  let ?files = "glob_txt ev (data_dir fr m ac)"
  let ?args = "read_args fr"
  let ?st0 = "\<lparr>prices = [], tickers = Map.empty,
        trace = [PrintPath (as_posix (data_dir fr m ac))]\<rparr>"
  let ?run = "for_files ev ?args 1 ?files ?st0"
  let ?caught = "\<forall>f\<in>set ?files. \<forall>e.
           read_csv ev ?args f = Inl e \<longrightarrow> e = EmptyDataError \<or> e = IndexError"
  let ?some = "\<exists>f\<in>set ?files. \<exists>d. read_csv ev ?args f = Inr d"
  obtain st r where run: "?run = (st, r)"
    by (cases ?run) auto
  have r: "(r = None) = ?caught"
    using for_files_error [of ev ?args 1 ?files ?st0] run by simp
  have pr: "(prices st \<noteq> []) = ?some" if "r = None"
  proof -
    from that run have "?run = (st, None)" by simp
    from for_files_prices [OF this]
    have "prices st = [df. f \<leftarrow> ?files, Inr df \<leftarrow> [read_csv ev ?args f]]"
      by simp
    then show ?thesis
      by (simp only: frames_nonempty)
  qed
  have res: "snd (get_stooq_prices_and_tickers ev fr m ac) =
     (case r of Some e \<Rightarrow> Inl e
      | None \<Rightarrow> if prices st = [] then Inl ValueError
                else Inr (apply_to_numeric ev (concat (prices st)), tickers st))"
    unfolding get_stooq_unfold run by (simp split: option.splits)
  have one: "(\<exists>df tks. snd (get_stooq_prices_and_tickers ev fr m ac) = Inr (df, tks)) =
      (?caught \<and> ?some)"
  proof (cases r)
    case None
    with r pr res show ?thesis by auto
  next
    case (Some e)
    with r res show ?thesis by auto
  qed
  have two: "(\<forall>f\<in>set ?files.
        read_csv ev ?args f = Inl EmptyDataError \<or> read_csv ev ?args f = Inl IndexError) \<longrightarrow>
      snd (get_stooq_prices_and_tickers ev fr m ac) = Inl ValueError"
  proof
    assume a: "\<forall>f\<in>set ?files.
        read_csv ev ?args f = Inl EmptyDataError \<or> read_csv ev ?args f = Inl IndexError"
    then have c: ?caught by auto
    from a have "\<not> ?some" by auto
    with c r pr res show "snd (get_stooq_prices_and_tickers ev fr m ac) = Inl ValueError"
      by auto
  qed
  have three: "\<forall>pre f post e.
      ?files = pre @ f # post \<and>
      (\<forall>g\<in>set pre. \<forall>x. read_csv ev ?args g = Inl x \<longrightarrow>
           x = EmptyDataError \<or> x = IndexError) \<and>
      read_csv ev ?args f = Inl e \<and> e \<noteq> EmptyDataError \<and> e \<noteq> IndexError \<longrightarrow>
      snd (get_stooq_prices_and_tickers ev fr m ac) = Inl e"
  proof (intro allI impI, elim conjE)
    fix pre f post e
    assume f: "?files = pre @ f # post"
      and p: "\<forall>g\<in>set pre. \<forall>x. read_csv ev ?args g = Inl x \<longrightarrow>
           x = EmptyDataError \<or> x = IndexError"
      and e: "read_csv ev ?args f = Inl e" "e \<noteq> EmptyDataError" "e \<noteq> IndexError"
    from for_files_first_uncaught [OF p e, of 1 post ?st0] f run have "r = Some e"
      by simp
    with res show "snd (get_stooq_prices_and_tickers ev fr m ac) = Inl e"
      by simp
  qed
  from one two three show ?thesis by (intro conjI)
qed

theorem returns_iff_some_frame_witness:
  "(\<exists>df tks. snd (get_stooq_prices_and_tickers sample_env ''daily'' ''us'' ''nasdaq etfs'')
       = Inr (df, tks)) \<and>
   snd (get_stooq_prices_and_tickers empty_env ''hourly'' ''jp'' ''tse stocks'') = Inl ValueError"
proof -
  have caught: "\<forall>f\<in>set (glob_txt sample_env (data_dir ''daily'' ''us'' ''nasdaq etfs'')). \<forall>e.
      read_csv sample_env (read_args ''daily'') f = Inl e \<longrightarrow> e = EmptyDataError \<or> e = IndexError"
    by (simp add: sample_env_def name_snoc)
  have some: "\<exists>f\<in>set (glob_txt sample_env (data_dir ''daily'' ''us'' ''nasdaq etfs'')). \<exists>df.
      read_csv sample_env (read_args ''daily'') f = Inr df"
    by (simp add: sample_env_def name_snoc)
  have none: "\<forall>f\<in>set (glob_txt empty_env (data_dir ''hourly'' ''jp'' ''tse stocks'')).
        read_csv empty_env (read_args ''hourly'') f = Inl EmptyDataError \<or>
        read_csv empty_env (read_args ''hourly'') f = Inl IndexError"
    by (simp add: empty_env_def)
  from returns_iff_some_frame [of sample_env "''daily''" "''us''" "''nasdaq etfs''"]
    caught some
  have "\<exists>df tks. snd (get_stooq_prices_and_tickers sample_env ''daily'' ''us'' ''nasdaq etfs'')
       = Inr (df, tks)"
    by blast
  moreover from returns_iff_some_frame [of empty_env "''hourly''" "''jp''" "''tse stocks''"] none
  have "snd (get_stooq_prices_and_tickers empty_env ''hourly'' ''jp'' ''tse stocks'') = Inl ValueError"
    by blast
  ultimately show ?thesis by (intro conjI)
qed

text \<open>
  C7. A run that returns has read the enumerated files one after the other, each once and
  in the order of enumeration, every one with the same column schema; the combined table is
  the concatenation of the per-file tables in that order, and the prices returned are that
  table with its value columns made numeric.
\<close>

theorem single_sequential_pass:
  assumes "get_stooq_prices_and_tickers ev fr m ac = (tr, Inr (df, tks))"
  shows "[(a, p). ReadCsv a p \<leftarrow> tr] =
           map (Pair (read_args fr)) (glob_txt ev (data_dir fr m ac)) \<and>
         names (read_args fr) =
           [''ticker'', ''freq'', ''date'', ''time'', ''open'', ''high'', ''low'', ''close'',
            ''volume'', ''openint''] \<and>
         usecols (read_args fr) =
           map Col [''ticker'', ''open'', ''high'', ''low'', ''close'', ''volume''] @
           [if fr = ''5 min'' \<or> fr = ''hourly'' then Cols [''date'', ''time'']
            else Col ''date''] \<and>
         header (read_args fr) = 0 \<and>
         pd_concat [d. f \<leftarrow> glob_txt ev (data_dir fr m ac),
                       Inr d \<leftarrow> [read_csv ev (read_args fr) f]] =
           Inr (concat [d. f \<leftarrow> glob_txt ev (data_dir fr m ac),
                           Inr d \<leftarrow> [read_csv ev (read_args fr) f]]) \<and>
         df = apply_to_numeric ev (set_index (rename_lower
                (concat [d. f \<leftarrow> glob_txt ev (data_dir fr m ac),
                            Inr d \<leftarrow> [read_csv ev (read_args fr) f]])))"
proof -
  from get_stooq_Inr [OF assms] obtain st where
    run: "for_files ev (read_args fr) 1 (glob_txt ev (data_dir fr m ac))
       \<lparr>prices = [], tickers = Map.empty,
        trace = [PrintPath (as_posix (data_dir fr m ac))]\<rparr> = (st, None)"
    and ne: "prices st \<noteq> []"
    and df: "df = apply_to_numeric ev (concat (prices st))"
    and tr: "tr = trace st"
    by blast
  have pr: "prices st = [d. f \<leftarrow> glob_txt ev (data_dir fr m ac),
                       Inr d \<leftarrow> [read_csv ev (read_args fr) f]]"
    using for_files_prices [OF run] by simp
  have reads: "[(a, p). ReadCsv a p \<leftarrow> tr] =
           map (Pair (read_args fr)) (glob_txt ev (data_dir fr m ac))"
    using for_files_reads [OF run] tr by simp
  have schema: "names (read_args fr) =
           [''ticker'', ''freq'', ''date'', ''time'', ''open'', ''high'', ''low'', ''close'',
            ''volume'', ''openint'']"
      "usecols (read_args fr) =
           map Col [''ticker'', ''open'', ''high'', ''low'', ''close'', ''volume''] @
           [if fr = ''5 min'' \<or> fr = ''hourly'' then Cols [''date'', ''time'']
            else Col ''date'']"
      "header (read_args fr) = 0"
    by (simp_all add: read_args_def Let_def)
  have cat: "pd_concat [d. f \<leftarrow> glob_txt ev (data_dir fr m ac),
                       Inr d \<leftarrow> [read_csv ev (read_args fr) f]] =
           Inr (concat [d. f \<leftarrow> glob_txt ev (data_dir fr m ac),
                           Inr d \<leftarrow> [read_csv ev (read_args fr) f]])"
    using ne unfolding pr by (simp only: pd_concat_def if_False)
  have "df = apply_to_numeric ev (set_index (rename_lower
                (concat [d. f \<leftarrow> glob_txt ev (data_dir fr m ac),
                            Inr d \<leftarrow> [read_csv ev (read_args fr) f]])))"
    using df unfolding pr by (simp only: set_index_def rename_lower_def)
  with reads schema cat show ?thesis by (intro conjI)
qed

theorem single_sequential_pass_witness:
  "[(a, p). ReadCsv a p \<leftarrow> fst (get_stooq_prices_and_tickers sample_env ''daily'' ''us'' ''nyse etfs'')] =
     map (Pair (read_args ''daily''))
     [[''stooq'', ''data'', ''data'', ''daily'', ''us'', ''nyse etfs'', ''aaa.us.txt''],
      [''stooq'', ''data'', ''data'', ''daily'', ''us'', ''nyse etfs'', ''empty.us.txt''],
      [''stooq'', ''data'', ''data'', ''daily'', ''us'', ''nyse etfs'', ''AAA_2.us.txt'']] \<and>
   fst (projr (snd (get_stooq_prices_and_tickers sample_env ''daily'' ''us'' ''nyse etfs''))) =
     apply_to_numeric sample_env
       ([sample_row, sample_row\<lparr>date := Some (1999, 12, 31, 0)\<rparr>] @
        [sample_row\<lparr>close_px := Text ''10''\<rparr>,
          sample_row\<lparr>close_px := Text ''12''\<rparr>,
          sample_row\<lparr>close_px := Text ''abc''\<rparr>])"
proof -
  let ?res = "get_stooq_prices_and_tickers sample_env ''daily'' ''us'' ''nyse etfs''"
  let ?dir = "data_dir ''daily'' ''us'' ''nyse etfs''"
  have run: "?res = (fst ?res, Inr (fst (projr (snd ?res)), snd (projr (snd ?res))))"
    by (simp add: sample_run)
  have dir: "?dir = [''stooq'', ''data'', ''data'', ''daily'', ''us'', ''nyse etfs'']"
    by (simp add: data_dir_def joinpath_def Path_def stooq_path_def)
  have files: "glob_txt sample_env ?dir =
      [?dir @ [''aaa.us.txt''], ?dir @ [''empty.us.txt''], ?dir @ [''AAA_2.us.txt'']]"
    by (simp add: sample_env_def)
  have frames: "concat [d. f \<leftarrow> glob_txt sample_env ?dir,
                      Inr d \<leftarrow> [read_csv sample_env (read_args ''daily'') f]] =
      [sample_row, sample_row\<lparr>date := Some (1999, 12, 31, 0)\<rparr>] @
      [sample_row\<lparr>close_px := Text ''10''\<rparr>,
          sample_row\<lparr>close_px := Text ''12''\<rparr>,
          sample_row\<lparr>close_px := Text ''abc''\<rparr>]"
    unfolding files by (simp add: sample_env_def name_snoc)
  from single_sequential_pass [OF run]
  have reads: "[(a, p). ReadCsv a p \<leftarrow> fst ?res] =
      map (Pair (read_args ''daily'')) (glob_txt sample_env ?dir)"
    and df: "fst (projr (snd ?res)) = apply_to_numeric sample_env (set_index (rename_lower
                (concat [d. f \<leftarrow> glob_txt sample_env ?dir,
                            Inr d \<leftarrow> [read_csv sample_env (read_args ''daily'') f]])))"
    by blast+
  have one: "[(a, p). ReadCsv a p \<leftarrow> fst ?res] =
     map (Pair (read_args ''daily''))
     [[''stooq'', ''data'', ''data'', ''daily'', ''us'', ''nyse etfs'', ''aaa.us.txt''],
      [''stooq'', ''data'', ''data'', ''daily'', ''us'', ''nyse etfs'', ''empty.us.txt''],
      [''stooq'', ''data'', ''data'', ''daily'', ''us'', ''nyse etfs'', ''AAA_2.us.txt'']]"
    unfolding reads by (simp add: sample_env_def dir)
  have two: "fst (projr (snd ?res)) =
     apply_to_numeric sample_env
       ([sample_row, sample_row\<lparr>date := Some (1999, 12, 31, 0)\<rparr>] @
        [sample_row\<lparr>close_px := Text ''10''\<rparr>,
          sample_row\<lparr>close_px := Text ''12''\<rparr>,
          sample_row\<lparr>close_px := Text ''abc''\<rparr>])"
    using df unfolding frames by (simp only: set_index_def rename_lower_def)
  from one two show ?thesis by (intro conjI)
qed

lemma dom_tickers_parsed:
  assumes "\<And>t. tks t =
     (case [f \<leftarrow> files. \<exists>r rs. rd f = Inr (r # rs) \<and> ticker r = t] of
        [] \<Rightarrow> None
      | f # fs \<Rightarrow> Some (g (last (f # fs))))"
  shows "card (dom tks) \<le> length [f \<leftarrow> files. \<exists>r rs. rd f = Inr (r # rs)]"
proof -
  let ?parsed = "[f \<leftarrow> files. \<exists>r rs. rd f = Inr (r # rs)]"
  let ?first = "\<lambda>f. ticker (hd (projr (rd f)))"
  have "dom tks \<subseteq> ?first ` set ?parsed"
  proof
    fix t
    assume "t \<in> dom tks"
    then have "[f \<leftarrow> files. \<exists>r rs. rd f = Inr (r # rs) \<and> ticker r = t] \<noteq> []"
      using assms [of t] by (auto split: list.splits)
    then obtain f where "f \<in> set files" "\<exists>r rs. rd f = Inr (r # rs) \<and> ticker r = t"
      by (auto simp: filter_empty_conv)
    then show "t \<in> ?first ` set ?parsed"
      by force
  qed
  then have "card (dom tks) \<le> card (?first ` set ?parsed)"
    by (intro card_mono) auto
  also have "\<dots> \<le> card (set ?parsed)"
    by (rule card_image_le) simp
  also have "\<dots> \<le> length ?parsed"
    by (rule card_length)
  finally show ?thesis .
qed

text \<open>
  C10. In the tickers returned, a ticker is mapped exactly when it is the ticker of the
  first row of some parsed file, and then to the lower-cased part before the first dot of
  the name of the last such file in the enumeration. So there are at most as many entries
  as parsed files, and there can be fewer.
\<close>

theorem tickers_last_write_wins:
  assumes "get_stooq_prices_and_tickers ev fr m ac = (tr, Inr (df, tks))"
  shows "tks t =
           (case [f \<leftarrow> glob_txt ev (data_dir fr m ac).
                    \<exists>r rs. read_csv ev (read_args fr) f = Inr (r # rs) \<and> ticker r = t] of
              [] \<Rightarrow> None
            | f # fs \<Rightarrow>
                Some (lower (takeWhile (\<lambda>c. c \<noteq> CHR ''.'') (name (last (f # fs)))))) \<and>
         card (dom tks) \<le>
           length [f \<leftarrow> glob_txt ev (data_dir fr m ac).
                     \<exists>r rs. read_csv ev (read_args fr) f = Inr (r # rs)] \<and>
         (\<exists>ev' tr' df' tks'.
            get_stooq_prices_and_tickers ev' fr m ac = (tr', Inr (df', tks')) \<and>
            card (dom tks') <
              length [f \<leftarrow> glob_txt ev' (data_dir fr m ac).
                        \<exists>r rs. read_csv ev' (read_args fr) f = Inr (r # rs)])"
proof -
  from get_stooq_Inr [OF assms] obtain st where
    run: "for_files ev (read_args fr) 1 (glob_txt ev (data_dir fr m ac))
       \<lparr>prices = [], tickers = Map.empty,
        trace = [PrintPath (as_posix (data_dir fr m ac))]\<rparr> = (st, None)"
    and tks: "tks = tickers st"
    by blast
  have last_wins: "tks t =
           (case [f \<leftarrow> glob_txt ev (data_dir fr m ac).
                    \<exists>r rs. read_csv ev (read_args fr) f = Inr (r # rs) \<and> ticker r = t] of
              [] \<Rightarrow> None
            | f # fs \<Rightarrow>
                Some (lower (takeWhile (\<lambda>c. c \<noteq> CHR ''.'') (name (last (f # fs))))))" for t
    using for_files_tickers [OF run, of t] tks by (simp split: list.splits)
  have fewer: "card (dom tks) \<le>
           length [f \<leftarrow> glob_txt ev (data_dir fr m ac).
                     \<exists>r rs. read_csv ev (read_args fr) f = Inr (r # rs)]"
    by (rule dom_tickers_parsed) (rule last_wins)
  have "card (dom [''AAA.US'' \<mapsto> ''aaa_2'']) <
      length [f \<leftarrow> glob_txt sample_env (data_dir fr m ac).
                \<exists>r rs. read_csv sample_env (read_args fr) f = Inr (r # rs)]"
    by (simp add: sample_env_def name_snoc)
  then have strict: "\<exists>ev' tr' df' tks'.
            get_stooq_prices_and_tickers ev' fr m ac = (tr', Inr (df', tks')) \<and>
            card (dom tks') <
              length [f \<leftarrow> glob_txt ev' (data_dir fr m ac).
                        \<exists>r rs. read_csv ev' (read_args fr) f = Inr (r # rs)]"
    using sample_run [of fr m ac] by blast
  from last_wins [of t] fewer strict show ?thesis by (intro conjI)
qed

theorem tickers_last_write_wins_witness:
  "snd (projr (snd (get_stooq_prices_and_tickers sample_env ''daily'' ''us'' ''nyse stocks'')))
     ''AAA.US'' = Some ''aaa_2'' \<and>
   snd (projr (snd (get_stooq_prices_and_tickers sample_env ''daily'' ''us'' ''nyse stocks'')))
     ''BBB.US'' = None \<and>
   card (dom (snd (projr (snd
     (get_stooq_prices_and_tickers sample_env ''daily'' ''us'' ''nyse stocks''))))) \<le> 2"
proof -
  let ?res = "get_stooq_prices_and_tickers sample_env ''daily'' ''us'' ''nyse stocks''"
  have run: "?res = (fst ?res, Inr (fst (projr (snd ?res)), snd (projr (snd ?res))))"
    by (simp add: sample_run)
  have a: "snd (projr (snd ?res)) ''AAA.US'' = Some ''aaa_2''"
    using tickers_last_write_wins [OF run, of "''AAA.US''"]
    by (simp add: sample_env_def name_snoc sample_row_def lower_sample)
  have b: "snd (projr (snd ?res)) ''BBB.US'' = None"
    using tickers_last_write_wins [OF run, of "''BBB.US''"]
    by (simp add: sample_env_def name_snoc sample_row_def)
  have c: "card (dom (snd (projr (snd ?res)))) \<le> 2"
    using tickers_last_write_wins [OF run, of "''AAA.US''"]
    by (simp add: sample_env_def name_snoc sample_row_def)
  from a b c show ?thesis by (intro conjI)
qed

section \<open>Deduplication\<close>




section \<open>What is written to the store\<close>










text \<open>A ticker with a dated row and a row without date: the slice raises.\<close>

lemma undated_prepare:
  "prepare [sample_row, sample_row\<lparr>date := None\<rparr>] = Inl UnsortedIndexError"
  by (simp add: prepare_def loc_2000_2019_def is_lexsorted_def level_code_def na_last_def
        sort_index_def sample_row_def less_eq_prod_def)

































section \<open>Unpacking the archive\<close>















end
